theory Spec2Isabelle
  imports Main "HOL-Library.List_Lexorder" "HOL-Library.Multiset" "HOL-Library.Sublist"
begin

section \<open>Text\<close>

text \<open>
  A Python \<open>str\<close> is a sequence of Unicode code points; \<open>len\<close> counts code points and
  \<open><\<close> compares lexicographically by code point, which is the order that
  \<open>HOL-Library.List_Lexorder\<close> puts on \<open>nat list\<close>.  Literals of the script are
  written \<open>lit ''...''\<close>.
\<close>

type_synonym codepoint = nat
type_synonym str = "codepoint list"

definition lit :: "string \<Rightarrow> str" where
  "lit s = map of_char s"

abbreviation (input) LF :: codepoint where "LF \<equiv> 10"
abbreviation (input) CR :: codepoint where "CR \<equiv> 13"
abbreviation (input) SPACE :: codepoint where "SPACE \<equiv> 32"
abbreviation (input) COMMA :: codepoint where "COMMA \<equiv> 44"
abbreviation (input) HYPHEN :: codepoint where "HYPHEN \<equiv> 45"

subsection \<open>The Unicode database\<close>

text \<open>
  \<open>lower()\<close>, \<open>title()\<close> and \<open>isdigit()\<close> read the character tables of the Python
  runtime, which are no part of the script.  They are a parameter of the model: the
  full lowercase and titlecase mapping of a code point (one to three code points),
  the properties Cased and Case_Ignorable, the property that \<open>isdigit\<close> tests, and the
  property that \<open>isspace\<close> tests.  Every general statement below holds for all tables.
\<close>

record unicode_db =
  db_lower :: "codepoint \<Rightarrow> str"
  db_title :: "codepoint \<Rightarrow> str"
  db_cased :: "codepoint \<Rightarrow> bool"
  db_case_ignorable :: "codepoint \<Rightarrow> bool"
  db_digit :: "codepoint \<Rightarrow> bool"
  db_space :: "codepoint \<Rightarrow> bool"

text \<open>
  The tables as they are on ASCII: the letters \<open>A\<close> to \<open>Z\<close> and \<open>a\<close> to \<open>z\<close> are cased
  and map to each other, \<open>0\<close> to \<open>9\<close> are the digits, the apostrophe, the full stop,
  the colon, the circumflex and the grave accent are case-ignorable, and the
  whitespace is the space, the five controls from 9 to 13 and the four from 28 to 31.  On
  other code points these tables say nothing true; they serve for the examples, whose
  names are ASCII.
\<close>

definition ascii_db :: unicode_db where
  "ascii_db =
     \<lparr>db_lower = (\<lambda>c. [if 65 \<le> c \<and> c \<le> 90 then c + 32 else c]),
      db_title = (\<lambda>c. [if 97 \<le> c \<and> c \<le> 122 then c - 32 else c]),
      db_cased = (\<lambda>c. (65 \<le> c \<and> c \<le> 90) \<or> (97 \<le> c \<and> c \<le> 122)),
      db_case_ignorable = (\<lambda>c. c = 39 \<or> c = 46 \<or> c = 58 \<or> c = 94 \<or> c = 96),
      db_digit = (\<lambda>c. 48 \<le> c \<and> c \<le> 57),
      db_space = (\<lambda>c. c = 32 \<or> (9 \<le> c \<and> c \<le> 13) \<or> (28 \<le> c \<and> c \<le> 31))\<rparr>"

subsection \<open>The string methods the script calls\<close>

text \<open>\<open>s.replace(old, new)\<close> for one-character \<open>old\<close> and \<open>new\<close>.\<close>

definition py_replace :: "codepoint \<Rightarrow> codepoint \<Rightarrow> str \<Rightarrow> str" where
  "py_replace old new s = map (\<lambda>c. if c = old then new else c) s"

text \<open>
  CPython lowercases one character by its full mapping, but for the capital sigma
  \<open>U+03A3\<close>, which becomes the final sigma \<open>U+03C2\<close> when a cased character stands
  before it and none after it, case-ignorable characters skipped, and the small sigma
  \<open>U+03C3\<close> otherwise.  \<open>left\<close> and \<open>right\<close> are the parts of the string on the two
  sides of the character.
\<close>

definition final_sigma :: "unicode_db \<Rightarrow> str \<Rightarrow> str \<Rightarrow> bool" where
  "final_sigma U left right =
     (case dropWhile (db_case_ignorable U) (rev left) of
        [] \<Rightarrow> False
      | c # _ \<Rightarrow>
          db_cased U c
          \<and> (case dropWhile (db_case_ignorable U) right of
                [] \<Rightarrow> True
              | d # _ \<Rightarrow> \<not> db_cased U d))"

definition lower_ucs4 :: "unicode_db \<Rightarrow> str \<Rightarrow> codepoint \<Rightarrow> str \<Rightarrow> str" where
  "lower_ucs4 U left c right =
     (if c = 0x3A3 then [if final_sigma U left right then 0x3C2 else 0x3C3]
      else db_lower U c)"

text \<open>\<open>s.lower()\<close>: every character lowercased in its place.\<close>

fun lower_loop :: "unicode_db \<Rightarrow> str \<Rightarrow> str \<Rightarrow> str" where
  "lower_loop U left [] = []"
| "lower_loop U left (c # right) =
     lower_ucs4 U left c right @ lower_loop U (left @ [c]) right"

definition py_lower :: "unicode_db \<Rightarrow> str \<Rightarrow> str" where
  "py_lower U s = lower_loop U [] s"

text \<open>
  \<open>s.title()\<close>: CPython walks the string with a flag \<open>previous_is_cased\<close>; a character
  after a cased one is lowercased, any other is titlecased, and the flag becomes
  whether the character just read is cased.
\<close>

fun title_loop :: "unicode_db \<Rightarrow> bool \<Rightarrow> str \<Rightarrow> str \<Rightarrow> str" where
  "title_loop U previous_is_cased left [] = []"
| "title_loop U previous_is_cased left (c # right) =
     (if previous_is_cased then lower_ucs4 U left c right else db_title U c)
     @ title_loop U (db_cased U c) (left @ [c]) right"

definition py_title :: "unicode_db \<Rightarrow> str \<Rightarrow> str" where
  "py_title U s = title_loop U False [] s"

text \<open>\<open>s.isdigit()\<close>: false on the empty string.\<close>

definition py_isdigit :: "unicode_db \<Rightarrow> str \<Rightarrow> bool" where
  "py_isdigit U s = (s \<noteq> [] \<and> list_all (db_digit U) s)"

text \<open>\<open>s.split(sep, 1)\<close> for a one-character \<open>sep\<close>: at most one cut, at the first \<open>sep\<close>.\<close>

definition py_split1 :: "codepoint \<Rightarrow> str \<Rightarrow> str list" where
  "py_split1 sep s =
     (if sep \<in> set s
      then [takeWhile (\<lambda>c. c \<noteq> sep) s, tl (dropWhile (\<lambda>c. c \<noteq> sep) s)]
      else [s])"

text \<open>\<open>str(n)\<close> and \<open>format(n, ',')\<close> for a non-negative \<open>int\<close>.\<close>

fun py_str_nat :: "nat \<Rightarrow> str" where
  "py_str_nat n = (if n < 10 then [48 + n] else py_str_nat (n div 10) @ [48 + n mod 10])"

definition three_digits :: "nat \<Rightarrow> str" where
  "three_digits m = [48 + m div 100, 48 + m div 10 mod 10, 48 + m mod 10]"

fun format_comma :: "nat \<Rightarrow> str" where
  "format_comma n =
     (if n < 1000 then py_str_nat n
      else format_comma (n div 1000) @ [COMMA] @ three_digits (n mod 1000))"

declare py_str_nat.simps [simp del] format_comma.simps [simp del]

text \<open>
  Reading in text mode translates line ends: a carriage return followed by a line
  feed, and a carriage return alone, become one line feed.
\<close>

fun universal_newlines :: "str \<Rightarrow> str" where
  "universal_newlines [] = []"
| "universal_newlines [c] = [if c = CR then LF else c]"
| "universal_newlines (c # d # cs) =
     (if c = CR \<and> d = LF then LF # universal_newlines cs
      else if c = CR then LF # universal_newlines (d # cs)
      else c # universal_newlines (d # cs))"

section \<open>The file system and the clock\<close>

datatype py_error =
  FileNotFoundError | NotADirectoryError | IsADirectoryError | PermissionError
  | UnicodeDecodeError

text \<open>
  An entry of a project directory, as \<open>read_text()\<close> finds it: a file with the
  characters stored in it (decoded, line ends as they are in the file), or something
  on which reading raises (the entry is a directory, may not be read, or does not
  decode).
\<close>

datatype entry = TextFile str | Unreadable py_error

text \<open>
  A child of \<open>docs/project\<close>: something \<open>is_dir()\<close> rejects, or a directory with the
  entries it holds, by name.
\<close>

datatype node = NonDir | Dir "str \<Rightarrow> entry option"

text \<open>
  The environment of one run.  \<open>project_root\<close> is what \<open>iterdir()\<close> yields on
  \<open>docs/project\<close>, in the order the operating system gives (or the error it raises);
  \<open>open_error\<close> is the error that opening \<open>docs/PORTFOLIO.md\<close> for writing raises, if
  any; \<open>output_file\<close> is the text of that file before the run, if it exists;
  \<open>today\<close> is \<open>datetime.utcnow().strftime('%Y-%m-%d')\<close>.  Files hold characters: the
  codec lies below this model, and so do failures of \<open>f.write\<close> itself.  Writing in
  text mode leaves a line feed as it is (the line separator of POSIX).
\<close>

record env =
  project_root :: "py_error + (str \<times> node) list"
  open_error :: "py_error option"
  output_file :: "str option"
  today :: str

text \<open>
  What a run does: how it ends (\<open>Inl\<close> an uncaught exception), the lines printed, the
  text passed to \<open>f.write\<close> if the file was written, and the output file afterwards.
\<close>

record run =
  status :: "py_error + unit"
  console :: "str list"
  written :: "str option"
  output_after :: "str option"

section \<open>The script\<close>

fun is_dir :: "node \<Rightarrow> bool" where
  "is_dir (Dir _) = True"
| "is_dir NonDir = False"

text \<open>
  Paths with the same parent compare by their last component, so \<open>sorted\<close> (a stable
  sort) orders the directories by name.
\<close>

definition get_project_dirs :: "env \<Rightarrow> py_error + (str \<times> node) list" where
  "get_project_dirs e =
     (case project_root e of
        Inl err \<Rightarrow> Inl err
      | Inr children \<Rightarrow> Inr (sort_key fst (filter (\<lambda>d. is_dir (snd d)) children)))"

definition README_md :: str where
  "README_md = lit ''README.md''"

text \<open>
  \<open>exists()\<close> is false for a path below something that is no directory;
  \<open>read_text()\<close> opens the file in text mode.
\<close>

fun read_readme :: "str \<times> node \<Rightarrow> py_error + str option" where
  "read_readme (name, Dir entries) =
     (case entries README_md of
        None \<Rightarrow> Inr None
      | Some (TextFile stored) \<Rightarrow> Inr (Some (universal_newlines stored))
      | Some (Unreadable err) \<Rightarrow> Inl err)"
| "read_readme (name, NonDir) = Inr None"

definition toc_title :: "unicode_db \<Rightarrow> str \<Rightarrow> str" where
  "toc_title U name =
     (let title = py_title U (py_replace HYPHEN SPACE name);
          parts = py_split1 SPACE title
      in if py_isdigit U (parts ! 0) \<and> length parts > 1 then parts ! 1 else title)"

definition toc_anchor :: "unicode_db \<Rightarrow> str \<Rightarrow> str" where
  "toc_anchor U name = py_replace SPACE HYPHEN (py_lower U name)"

definition toc_line :: "unicode_db \<Rightarrow> nat \<Rightarrow> str \<Rightarrow> str" where
  "toc_line U i name =
     py_str_nat i @ lit ''. ['' @ toc_title U name @ lit ''](#'' @ toc_anchor U name
     @ lit '')\<newline>''"

fun toc_loop :: "unicode_db \<Rightarrow> nat \<Rightarrow> (str \<times> str) list \<Rightarrow> str \<Rightarrow> str" where
  "toc_loop U i [] toc = toc"
| "toc_loop U i ((name, _) # rest) toc = toc_loop U (Suc i) rest (toc @ toc_line U i name)"

definition toc_heading :: str where
  "toc_heading = lit ''## Table of Contents\<newline>\<newline>''"

definition generate_toc :: "unicode_db \<Rightarrow> (str \<times> str) list \<Rightarrow> str" where
  "generate_toc U projects = toc_loop U 1 projects toc_heading"

text \<open>
  The loop \<open>for d in get_project_dirs()\<close> of \<open>main\<close>, with \<open>projects\<close> as accumulator; an
  exception of \<open>read_readme\<close> ends it.  \<open>if content\<close> is false for \<open>None\<close> and for the empty
  string.
\<close>

fun collect :: "(str \<times> node) list \<Rightarrow> (str \<times> str) list \<Rightarrow> py_error + (str \<times> str) list" where
  "collect [] projects = Inr projects"
| "collect (d # ds) projects =
     (case read_readme d of
        Inl err \<Rightarrow> Inl err
      | Inr None \<Rightarrow> collect ds projects
      | Inr (Some content) \<Rightarrow>
          if content \<noteq> [] then collect ds (projects @ [(fst d, content)])
          else collect ds projects)"

text \<open>The value of \<open>projects\<close> when the first loop of \<open>main\<close> is over.\<close>

definition find_projects :: "env \<Rightarrow> py_error + (str \<times> str) list" where
  "find_projects e =
     (case get_project_dirs e of
        Inl err \<Rightarrow> Inl err
      | Inr dirs \<Rightarrow> collect dirs [])"

definition front_before_date :: str where
  "front_before_date =
     lit ''# DevSecOps & Cloud Security Portfolio\<newline>''
     @ lit ''\<newline>''
     @ lit ''> **BAMG Studio** | Generated ''"

definition front_after_date :: str where
  "front_after_date =
     lit ''\<newline>''
     @ lit ''>\<newline>''
     @ lit ''> Comprehensive documentation for 12 enterprise-grade security,\<newline>''
     @ lit ''> DevOps, and ML engineering projects demonstrating expertise in\<newline>''
     @ lit ''> AWS cloud architecture, security automation, and MLOps.\<newline>''
     @ lit ''\<newline>''
     @ lit ''---\<newline>''
     @ lit ''\<newline>''"

definition front_matter :: "str \<Rightarrow> str \<Rightarrow> str" where
  "front_matter date toc =
     front_before_date @ date @ front_after_date @ toc @ lit ''\<newline>---\<newline>\<newline>''"

definition section_text :: "str \<Rightarrow> str \<Rightarrow> str" where
  "section_text name content =
     lit ''\<newline>\<newline>---\<newline>\<newline><!-- PROJECT: '' @ name @ lit '' -->\<newline>\<newline>''
     @ content @ lit ''\<newline>''"

fun append_sections :: "(str \<times> str) list \<Rightarrow> str \<Rightarrow> str" where
  "append_sections [] portfolio = portfolio"
| "append_sections ((name, content) # rest) portfolio =
     append_sections rest (portfolio @ section_text name content)"

definition OUTPUT_FILE :: str where
  "OUTPUT_FILE = lit ''docs/PORTFOLIO.md''"

definition raised :: "env \<Rightarrow> py_error \<Rightarrow> run" where
  "raised e err =
     \<lparr>status = Inl err, console = [], written = None, output_after = output_file e\<rparr>"

text \<open>
  \<open>os.makedirs('docs', exist_ok=True)\<close> is reached only after \<open>docs/project\<close> has been
  listed, so \<open>docs\<close> exists and the call changes nothing.
\<close>

definition main :: "unicode_db \<Rightarrow> env \<Rightarrow> run" where
  "main U e =
     (case find_projects e of
        Inl err \<Rightarrow> raised e err
      | Inr projects \<Rightarrow>
          if projects = [] then
            \<lparr>status = Inr (), console = [lit ''No project README files found!''],
             written = None, output_after = output_file e\<rparr>
          else
            let portfolio =
                  append_sections projects (front_matter (today e) (generate_toc U projects))
            in (case open_error e of
                  Some err \<Rightarrow> raised e err
                | None \<Rightarrow>
                    \<lparr>status = Inr (),
                     console =
                       [lit ''Portfolio generated: '' @ OUTPUT_FILE,
                        lit ''Total projects: '' @ py_str_nat (length projects),
                        lit ''Total size: '' @ format_comma (length portfolio)
                          @ lit '' characters''],
                     written = Some portfolio,
                     output_after = Some portfolio\<rparr>))"

section \<open>Vocabulary of the statements\<close>

text \<open>
  The text that \<open>read_text()\<close> returns for a directory's \<open>README.md\<close> when it is a
  readable file and that text has at least one character.
\<close>

definition nonempty_readme :: "node \<Rightarrow> str option" where
  "nonempty_readme nd =
     (case nd of
        NonDir \<Rightarrow> None
      | Dir entries \<Rightarrow>
          (case entries README_md of
             Some (TextFile stored) \<Rightarrow>
               if universal_newlines stored \<noteq> [] then Some (universal_newlines stored)
               else None
           | _ \<Rightarrow> None))"

definition included :: "str \<times> node \<Rightarrow> (str \<times> str) option" where
  "included d = map_option (Pair (fst d)) (nonempty_readme (snd d))"

text \<open>Reading the child's \<open>README.md\<close> raises nothing.\<close>

definition readable :: "str \<times> node \<Rightarrow> bool" where
  "readable d = (case read_readme d of Inl _ \<Rightarrow> False | Inr _ \<Rightarrow> True)"

text \<open>The directory holds an entry \<open>README.md\<close>, whatever is in it.\<close>

definition has_readme :: "node \<Rightarrow> bool" where
  "has_readme nd = (case nd of NonDir \<Rightarrow> False | Dir entries \<Rightarrow> entries README_md \<noteq> None)"

definition dirs_with_readme :: "(str \<times> node) list \<Rightarrow> str list" where
  "dirs_with_readme children = sort (map fst (filter (\<lambda>d. has_readme (snd d)) children))"

text \<open>The child has no \<open>README.md\<close>, or an empty one.\<close>

definition no_text :: "str \<times> node \<Rightarrow> bool" where
  "no_text d = (read_readme d = Inr None \<or> read_readme d = Inr (Some []))"

text \<open>The number a string of decimal digits denotes.\<close>

definition decimal_value :: "str \<Rightarrow> nat" where
  "decimal_value s = foldl (\<lambda>a c. 10 * a + (c - 48)) 0 s"

text \<open>
  The size in bytes of a text in UTF-8, the encoding in which Python writes a text file
  on a UTF-8 locale.
\<close>

definition utf8_length :: "codepoint \<Rightarrow> nat" where
  "utf8_length c = (if c < 0x80 then 1 else if c < 0x800 then 2 else if c < 0x10000 then 3 else 4)"

definition utf8_size :: "str \<Rightarrow> nat" where
  "utf8_size s = sum_list (map utf8_length s)"

definition ascii :: "str \<Rightarrow> bool" where
  "ascii s = list_all (\<lambda>c. c < 128) s"

subsection \<open>What the first loop sees of a child\<close>

text \<open>
  The loop of \<open>main\<close> looks at a child's name, at whether it is a directory, and at
  what reading its \<open>README.md\<close> gives: an exception, nothing to include, or a project.
\<close>

definition outcome :: "str \<times> node \<Rightarrow> py_error + (str \<times> str) option" where
  "outcome d = (case read_readme d of Inl err \<Rightarrow> Inl err | Inr _ \<Rightarrow> Inr (included d))"

definition alike :: "str \<times> node \<Rightarrow> str \<times> node \<Rightarrow> bool" where
  "alike d d' = (fst d = fst d' \<and> is_dir (snd d) = is_dir (snd d') \<and> outcome d = outcome d')"

subsection \<open>Case mapping by position\<close>

text \<open>
  What \<open>title()\<close> and \<open>lower()\<close> make of the character at each position.  In a title a
  character that directly follows a cased character (a letter) is lowercased; every
  other character (the first one, and one that follows a digit, a space, an underscore
  or any other uncased character) is titlecased.
\<close>

definition title_cased :: "unicode_db \<Rightarrow> str \<Rightarrow> str" where
  "title_cased U s =
     concat (map (\<lambda>i. if 0 < i \<and> db_cased U (s ! (i - 1))
                      then lower_ucs4 U (take i s) (s ! i) (drop (Suc i) s)
                      else db_title U (s ! i))
               [0..<length s])"

definition lower_cased :: "unicode_db \<Rightarrow> str \<Rightarrow> str" where
  "lower_cased U s =
     concat (map (\<lambda>i. lower_ucs4 U (take i s) (s ! i) (drop (Suc i) s)) [0..<length s])"

subsection \<open>The title as the specification words it\<close>

text \<open>
  Hyphens become spaces, the first character of every whitespace-separated word is
  capitalised, and a leading word of digits is dropped when another word follows.
  The other characters of a word are kept as they are; on a name in small letters,
  such as the one the two titles are compared on, lowercasing them instead would give
  the same text.
\<close>

definition is_space :: "unicode_db \<Rightarrow> codepoint \<Rightarrow> bool" where
  "is_space U c = (c = SPACE \<or> db_space U c)"

fun capitalize_words :: "unicode_db \<Rightarrow> bool \<Rightarrow> str \<Rightarrow> str" where
  "capitalize_words U at_word_start [] = []"
| "capitalize_words U at_word_start (c # cs) =
     (if at_word_start then db_title U c else [c]) @ capitalize_words U (is_space U c) cs"

definition drop_leading_number :: "unicode_db \<Rightarrow> str \<Rightarrow> str" where
  "drop_leading_number U title =
     (let first_word = takeWhile (\<lambda>c. \<not> is_space U c) (dropWhile (is_space U) title);
          others = dropWhile (is_space U)
                     (dropWhile (\<lambda>c. \<not> is_space U c) (dropWhile (is_space U) title))
      in if py_isdigit U first_word \<and> others \<noteq> [] then others else title)"

definition spec_title :: "unicode_db \<Rightarrow> str \<Rightarrow> str" where
  "spec_title U name =
     drop_leading_number U (capitalize_words U True (py_replace HYPHEN SPACE name))"

text \<open>
  The texts on which cutting at the first space is dropping the first word: the only
  whitespace is the space character, the text does not begin with a space, and a
  number at its start, when a space follows it, is followed by one space only and
  then by a further character.
\<close>

definition starts_with_space :: "str \<Rightarrow> bool" where
  "starts_with_space s = (case s of [] \<Rightarrow> False | c # _ \<Rightarrow> c = SPACE)"

definition regular_spacing :: "unicode_db \<Rightarrow> str \<Rightarrow> bool" where
  "regular_spacing U t =
     (list_all (\<lambda>c. db_space U c \<longrightarrow> c = SPACE) t
      \<and> \<not> starts_with_space t
      \<and> (SPACE \<in> set t \<and> py_isdigit U (takeWhile (\<lambda>c. c \<noteq> SPACE) t) \<longrightarrow>
           tl (dropWhile (\<lambda>c. c \<noteq> SPACE) t) \<noteq> []
           \<and> \<not> starts_with_space (tl (dropWhile (\<lambda>c. c \<noteq> SPACE) t))))"

subsection \<open>Sample environments\<close>

definition with_readme :: "str \<Rightarrow> node" where
  "with_readme stored = Dir [README_md \<mapsto> TextFile stored]"

definition proxy_dir :: "str \<times> node" where
  "proxy_dir = (lit ''01-proxy'', with_readme (lit ''# Proxy\<newline>Content''))"

definition scanner_dir :: "str \<times> node" where
  "scanner_dir = (lit ''02-scanner'', with_readme (lit ''# Scanner\<newline>Content''))"

definition empty_dir :: "str \<times> node" where
  "empty_dir = (lit ''03-empty'', Dir Map.empty)"

definition blank_dir :: "str \<times> node" where
  "blank_dir = (lit ''04-blank'', with_readme [])"

definition cafe_dir :: "str \<times> node" where
  "cafe_dir = (lit ''05-cafe'', with_readme [67, 97, 102, 233])"

text \<open>A \<open>README.md\<close> of two lines, the first ended by carriage return and line feed.\<close>

definition crlf_text :: str where
  "crlf_text = lit ''one'' @ [CR, LF] @ lit ''two''"

definition crlf_dir :: "str \<times> node" where
  "crlf_dir = (lit ''06-notes'', with_readme crlf_text)"

definition notes_file :: "str \<times> node" where
  "notes_file = (lit ''notes.txt'', NonDir)"

definition env_of :: "(str \<times> node) list \<Rightarrow> str option \<Rightarrow> str \<Rightarrow> env" where
  "env_of children old date =
     \<lparr>project_root = Inr children, open_error = None, output_file = old, today = date\<rparr>"

definition scenario_children :: "(str \<times> node) list" where
  "scenario_children = [scanner_dir, empty_dir, notes_file, proxy_dir]"

text \<open>
  The document for \<open>scenario_children\<close> on 2024-05-17, line by line.
\<close>

definition scenario_doc :: str where
  "scenario_doc =
     lit ''# DevSecOps & Cloud Security Portfolio\<newline>''
     @ lit ''\<newline>''
     @ lit ''> **BAMG Studio** | Generated 2024-05-17\<newline>''
     @ lit ''>\<newline>''
     @ lit ''> Comprehensive documentation for 12 enterprise-grade security,\<newline>''
     @ lit ''> DevOps, and ML engineering projects demonstrating expertise in\<newline>''
     @ lit ''> AWS cloud architecture, security automation, and MLOps.\<newline>''
     @ lit ''\<newline>''
     @ lit ''---\<newline>''
     @ lit ''\<newline>''
     @ lit ''## Table of Contents\<newline>''
     @ lit ''\<newline>''
     @ lit ''1. [Proxy](#01-proxy)\<newline>''
     @ lit ''2. [Scanner](#02-scanner)\<newline>''
     @ lit ''\<newline>''
     @ lit ''---\<newline>''
     @ lit ''\<newline>''
     @ lit ''\<newline>''
     @ lit ''\<newline>''
     @ lit ''---\<newline>''
     @ lit ''\<newline>''
     @ lit ''<!-- PROJECT: 01-proxy -->\<newline>''
     @ lit ''\<newline>''
     @ lit ''# Proxy\<newline>''
     @ lit ''Content\<newline>''
     @ lit ''\<newline>''
     @ lit ''\<newline>''
     @ lit ''---\<newline>''
     @ lit ''\<newline>''
     @ lit ''<!-- PROJECT: 02-scanner -->\<newline>''
     @ lit ''\<newline>''
     @ lit ''# Scanner\<newline>''
     @ lit ''Content\<newline>''"

text \<open>The document for the single directory \<open>crlf_dir\<close> on the same day.\<close>

definition crlf_doc :: str where
  "crlf_doc =
     lit ''# DevSecOps & Cloud Security Portfolio\<newline>''
     @ lit ''\<newline>''
     @ lit ''> **BAMG Studio** | Generated 2024-05-17\<newline>''
     @ lit ''>\<newline>''
     @ lit ''> Comprehensive documentation for 12 enterprise-grade security,\<newline>''
     @ lit ''> DevOps, and ML engineering projects demonstrating expertise in\<newline>''
     @ lit ''> AWS cloud architecture, security automation, and MLOps.\<newline>''
     @ lit ''\<newline>''
     @ lit ''---\<newline>''
     @ lit ''\<newline>''
     @ lit ''## Table of Contents\<newline>''
     @ lit ''\<newline>''
     @ lit ''1. [Notes](#06-notes)\<newline>''
     @ lit ''\<newline>''
     @ lit ''---\<newline>''
     @ lit ''\<newline>''
     @ lit ''\<newline>''
     @ lit ''\<newline>''
     @ lit ''---\<newline>''
     @ lit ''\<newline>''
     @ lit ''<!-- PROJECT: 06-notes -->\<newline>''
     @ lit ''\<newline>''
     @ lit ''one\<newline>''
     @ lit ''two\<newline>''"

text \<open>Ten projects named \<open>a\<close> to \<open>j\<close>, and their table of contents.\<close>

definition ten_projects :: "(str \<times> str) list" where
  "ten_projects = map (\<lambda>c. ([c], lit ''text'')) (lit ''abcdefghij'')"

definition ten_toc :: str where
  "ten_toc =
     lit ''## Table of Contents\<newline>''
     @ lit ''\<newline>''
     @ lit ''1. [A](#a)\<newline>''
     @ lit ''2. [B](#b)\<newline>''
     @ lit ''3. [C](#c)\<newline>''
     @ lit ''4. [D](#d)\<newline>''
     @ lit ''5. [E](#e)\<newline>''
     @ lit ''6. [F](#f)\<newline>''
     @ lit ''7. [G](#g)\<newline>''
     @ lit ''8. [H](#h)\<newline>''
     @ lit ''9. [I](#i)\<newline>''
     @ lit ''10. [J](#j)\<newline>''"

section \<open>Lemmas on the loops\<close>

lemma toc_loop_eq:
  "toc_loop U i ps toc = toc @ concat (map (\<lambda>(k, p). toc_line U k (fst p)) (enumerate i ps))"
  by (induction ps arbitrary: i toc) auto

lemma append_sections_eq:
  "append_sections ps p = p @ concat (map (\<lambda>(n, c). section_text n c) ps)"
  by (induction ps arbitrary: p) auto

lemma collect_step:
  "collect (d # ds) acc =
     (case read_readme d of
        Inl err \<Rightarrow> Inl err
      | Inr _ \<Rightarrow> collect ds (acc @ (case included d of None \<Rightarrow> [] | Some p \<Rightarrow> [p])))"
proof (cases d)
  case (Pair n nd)
  then show ?thesis
    by (cases nd)
      (simp_all add: included_def nonempty_readme_def split: option.splits entry.splits)
qed

lemma collect_Inr:
  "collect ds acc = Inr ps \<Longrightarrow> ps = acc @ List.map_filter included ds \<and> list_all readable ds"
proof (induction ds arbitrary: acc)
  case Nil
  then show ?case by (simp add: map_filter_simps)
next
  case (Cons d ds)
  from Cons.prems obtain c where c: "read_readme d = Inr c"
    and rest: "collect ds (acc @ (case included d of None \<Rightarrow> [] | Some p \<Rightarrow> [p])) = Inr ps"
    unfolding collect_step by (auto split: sum.splits)
  from Cons.IH [OF rest] c show ?case
    by (simp add: map_filter_simps readable_def split: option.splits)
qed

lemma collect_readable:
  "list_all readable ds \<Longrightarrow> collect ds acc = Inr (acc @ List.map_filter included ds)"
proof (induction ds arbitrary: acc)
  case Nil
  then show ?case by (simp add: map_filter_simps)
next
  case (Cons d ds)
  from Cons.prems obtain c where c: "read_readme d = Inr c"
    by (auto simp: readable_def split: sum.splits)
  from Cons.prems have "list_all readable ds" by simp
  from Cons.IH [OF this] c show ?case
    unfolding collect_step by (simp add: map_filter_simps split: option.splits)
qed

lemma fst_included: "included d = Some p \<Longrightarrow> fst p = fst d"
  by (auto simp: included_def)

lemma map_fst_included:
  "map fst (List.map_filter included ds) = map fst (filter (\<lambda>d. included d \<noteq> None) ds)"
  by (induction ds) (auto simp: map_filter_simps dest: fst_included split: option.splits)

lemma sort_key_fst_names: "map fst (sort_key fst xs) = sort (map fst xs)"
  by (rule properties_for_sort [symmetric]) (simp_all add: sorted_sort_key)

lemma included_names:
  "map fst (List.map_filter included (sort_key fst (filter (\<lambda>d. is_dir (snd d)) children)))
     = sort (map fst (filter (\<lambda>d. nonempty_readme (snd d) \<noteq> None) children))"
proof -
  have dir: "nonempty_readme nd \<noteq> None \<Longrightarrow> is_dir nd" for nd
    by (cases nd) (simp_all add: nonempty_readme_def)
  have "filter (\<lambda>d. included d \<noteq> None) (filter (\<lambda>d. is_dir (snd d)) children)
          = filter (\<lambda>d. nonempty_readme (snd d) \<noteq> None) children"
    using dir by (auto simp: included_def intro!: filter_cong)
  then show ?thesis
    by (simp add: map_fst_included filter_sort sort_key_fst_names)
qed

lemma toc_of_names:
  "generate_toc U ps = toc_heading @ concat (map (\<lambda>(i, n). toc_line U i n) (enumerate 1 (map fst ps)))"
proof -
  have "map (\<lambda>(k, p). toc_line U k (fst p)) (enumerate i ps)
          = map (\<lambda>(i, n). toc_line U i n) (enumerate i (map fst ps))" for i
    by (induction ps arbitrary: i) simp_all
  then show ?thesis
    by (simp add: generate_toc_def toc_loop_eq)
qed

lemma find_projects_readable:
  assumes "project_root e = Inr children" and "list_all readable children"
  shows "find_projects e
           = Inr (List.map_filter included (sort_key fst (filter (\<lambda>d. is_dir (snd d)) children)))"
proof -
  from assms(2) have "list_all readable (sort_key fst (filter (\<lambda>d. is_dir (snd d)) children))"
    by (simp add: list_all_iff)
  then show ?thesis
    using assms(1) by (simp add: find_projects_def get_project_dirs_def collect_readable)
qed

lemma main_written:
  assumes "find_projects e = Inr ps" and "ps \<noteq> []" and "open_error e = None"
  shows "written (main U e) = Some (append_sections ps (front_matter (today e) (generate_toc U ps)))"
  using assms by (simp add: main_def Let_def)

lemma decimal_value_snoc: "decimal_value (s @ [c]) = 10 * decimal_value s + (c - 48)"
  by (simp add: decimal_value_def)

lemma decimal_value_py_str_nat: "decimal_value (py_str_nat n) = n"
proof (induction n rule: py_str_nat.induct)
  case (1 n)
  show ?case
  proof (cases "n < 10")
    case True
    then show ?thesis
      by (subst py_str_nat.simps) (simp add: decimal_value_def)
  next
    case False
    with 1 show ?thesis
      by (subst py_str_nat.simps) (simp add: decimal_value_snoc)
  qed
qed

lemma inj_py_str_nat: "inj py_str_nat"
  by (rule inj_on_inverseI [where g = decimal_value]) (rule decimal_value_py_str_nat)

lemmas sample_defs =
  env_of_def proxy_dir_def scanner_dir_def empty_dir_def blank_dir_def cafe_dir_def
  crlf_dir_def crlf_text_def notes_file_def with_readme_def

lemma main_written_cases:
  assumes "written (main U e) = Some doc"
  shows "\<exists>ps. find_projects e = Inr ps \<and> ps \<noteq> [] \<and> open_error e = None
           \<and> doc = append_sections ps (front_matter (today e) (generate_toc U ps))"
  using assms
  by (auto simp: main_def raised_def Let_def split: sum.splits if_splits option.splits)

lemma find_projects_Inr:
  assumes "find_projects e = Inr ps"
  shows "\<exists>children. project_root e = Inr children
           \<and> ps = List.map_filter included (sort_key fst (filter (\<lambda>d. is_dir (snd d)) children))
           \<and> list_all readable (filter (\<lambda>d. is_dir (snd d)) children)"
proof -
  from assms obtain children where root: "project_root e = Inr children"
    and c: "collect (sort_key fst (filter (\<lambda>d. is_dir (snd d)) children)) [] = Inr ps"
    by (auto simp: find_projects_def get_project_dirs_def split: sum.splits)
  from collect_Inr [OF c] root show ?thesis
    by (simp add: list_all_iff)
qed

lemma sublist_concat_map:
  assumes "x \<in> set xs"
  shows "sublist (f x) (concat (map f xs))"
proof -
  from assms obtain as bs where "xs = as @ x # bs"
    by (auto dest: split_list)
  then have "concat (map f xs) = concat (map f as) @ f x @ concat (map f bs)"
    by simp
  then show ?thesis
    unfolding sublist_def by blast
qed

lemma collect_outcome:
  "collect (d # ds) acc =
     (case outcome d of
        Inl err \<Rightarrow> Inl err
      | Inr None \<Rightarrow> collect ds acc
      | Inr (Some p) \<Rightarrow> collect ds (acc @ [p]))"
  unfolding collect_step outcome_def by (simp split: sum.splits option.splits)

lemma collect_alike:
  "list_all2 alike ds ds' \<Longrightarrow> collect ds acc = collect ds' acc"
proof (induction ds ds' arbitrary: acc rule: list_all2_induct)
  case Nil
  show ?case by simp
next
  case (Cons d ds d' ds')
  from Cons.hyps(1) have "outcome d = outcome d'"
    by (simp add: alike_def)
  with Cons.IH show ?case
    unfolding collect_outcome by (simp split: sum.splits option.splits)
qed

lemma insort_alike:
  assumes "list_all2 alike ds ds'" and "alike d d'"
  shows "list_all2 alike (insort_key fst d ds) (insort_key fst d' ds')"
  using assms
proof (induction ds ds' rule: list_all2_induct)
  case Nil
  then show ?case by simp
next
  case (Cons x xs y ys)
  from Cons.hyps(1) Cons.prems have "fst x = fst y" "fst d = fst d'"
    by (simp_all add: alike_def)
  with Cons show ?case by simp
qed

lemma sort_alike:
  "list_all2 alike ds ds' \<Longrightarrow> list_all2 alike (sort_key fst ds) (sort_key fst ds')"
  by (induction ds ds' rule: list_all2_induct) (simp_all add: insort_alike)

lemma filter_alike:
  "list_all2 alike ds ds'
     \<Longrightarrow> list_all2 alike (filter (\<lambda>d. is_dir (snd d)) ds) (filter (\<lambda>d. is_dir (snd d)) ds')"
  by (induction ds ds' rule: list_all2_induct) (auto simp: alike_def)

lemma find_projects_alike:
  assumes "project_root e = Inr children" and "project_root e' = Inr children'"
    and "list_all2 alike children children'"
  shows "find_projects e = find_projects e'"
  using assms collect_alike [OF sort_alike [OF filter_alike [OF assms(3)]]]
  by (simp add: find_projects_def get_project_dirs_def)

lemma main_cong:
  assumes "find_projects e = find_projects e'" and "open_error e = open_error e'"
    and "output_file e = output_file e'" and "today e = today e'"
  shows "main U e = main U e'"
  using assms by (auto simp: main_def raised_def Let_def split: sum.splits option.splits)

lemma included_nonempty: "included d = Some (n, c) \<Longrightarrow> c \<noteq> []"
  by (cases d)
    (auto simp: included_def nonempty_readme_def
      split: node.splits option.splits entry.splits if_splits)

lemma set_map_filter: "set (List.map_filter f xs) = {y. \<exists>x \<in> set xs. f x = Some y}"
  by (induction xs) (auto simp: map_filter_simps split: option.splits)

lemma alike_refl: "alike d d"
  by (simp add: alike_def)

lemmas model_defs =
  main_def find_projects_def get_project_dirs_def generate_toc_def toc_heading_def toc_line_def
  toc_title_def toc_anchor_def py_title_def py_replace_def py_lower_def py_split1_def
  py_isdigit_def lower_ucs4_def final_sigma_def ascii_db_def
  front_matter_def front_before_date_def front_after_date_def section_text_def OUTPUT_FILE_def
  README_md_def lit_def Let_def raised_def py_str_nat.simps format_comma.simps three_digits_def

lemma get_project_dirs_perm:
  assumes "project_root e1 = Inr l1" and "project_root e2 = Inr l2"
    and "mset l1 = mset l2" and "distinct (map fst l1)"
  shows "get_project_dirs e1 = get_project_dirs e2"
proof -
  let ?P = "\<lambda>d :: str \<times> node. is_dir (snd d)"
  from assms(3) have m: "mset (filter ?P l1) = mset (filter ?P l2)"
    by simp
  from assms(4) have "inj_on fst (set l1)"
    by (simp add: distinct_map)
  then have "inj_on fst (set (filter ?P l1))"
    by (rule inj_on_subset) auto
  with m have "sort_key fst (filter ?P l1) = sort_key fst (filter ?P l2)"
    by (rule sort_key_eq_sort_key)
  with assms(1,2) show ?thesis
    by (simp add: get_project_dirs_def)
qed

lemma main_by_projects:
  "main U e =
     (case find_projects e of
        Inl err \<Rightarrow> raised e err
      | Inr ps \<Rightarrow>
          if ps = [] then
            \<lparr>status = Inr (), console = [lit ''No project README files found!''],
             written = None, output_after = output_file e\<rparr>
          else case open_error e of
            Some err \<Rightarrow> raised e err
          | None \<Rightarrow>
              \<lparr>status = Inr (),
               console =
                 [lit ''Portfolio generated: '' @ OUTPUT_FILE,
                  lit ''Total projects: '' @ py_str_nat (length ps),
                  lit ''Total size: ''
                    @ format_comma (length (append_sections ps (front_matter (today e) (generate_toc U ps))))
                    @ lit '' characters''],
               written = Some (append_sections ps (front_matter (today e) (generate_toc U ps))),
               output_after = Some (append_sections ps (front_matter (today e) (generate_toc U ps)))\<rparr>)"
  by (simp add: main_def Let_def split: sum.splits)

lemma three_digits_value:
  "100 * (r div 100) + 10 * (r div 10 mod 10) + r mod 10 = (r::nat)"
proof -
  define q where "q = r div 10"
  define a where "a = q div 10"
  define b where "b = q mod 10"
  define c where "c = r mod 10"
  have hundreds: "r div 100 = a"
    by (simp add: a_def q_def div_mult2_eq)
  have tens: "10 * a + b = q"
    unfolding a_def b_def by (rule mult_div_mod_eq)
  have units: "10 * q + c = r"
    unfolding q_def c_def by (rule mult_div_mod_eq)
  from tens units have "100 * a + 10 * b + c = r"
    by linarith
  then show ?thesis
    by (simp only: hundreds a_def b_def c_def q_def)
qed

lemma thousands: "1000 * (n div 1000) + n mod 1000 = (n::nat)"
  by simp

lemma decimal_value_three_digits:
  "decimal_value (xs @ three_digits r) = 1000 * decimal_value xs + r"
proof -
  have "decimal_value (xs @ three_digits r)
          = 1000 * decimal_value xs + (100 * (r div 100) + 10 * (r div 10 mod 10) + r mod 10)"
    by (simp add: decimal_value_def three_digits_def)
  then show ?thesis
    by (simp only: three_digits_value)
qed

lemma no_comma_py_str_nat: "filter (\<lambda>c. c \<noteq> COMMA) (py_str_nat n) = py_str_nat n"
proof (induction n rule: py_str_nat.induct)
  case (1 n)
  show ?case
  proof (cases "n < 10")
    case True
    then show ?thesis
      by (simp add: py_str_nat.simps [of n])
  next
    case False
    with 1 show ?thesis
      by (simp add: py_str_nat.simps [of n])
  qed
qed

lemma no_comma_three_digits: "filter (\<lambda>c. c \<noteq> COMMA) (three_digits r) = three_digits r"
  by (simp add: three_digits_def)

lemma decimal_value_format_comma:
  "decimal_value (filter (\<lambda>c. c \<noteq> COMMA) (format_comma n)) = n"
proof (induction n rule: format_comma.induct)
  case (1 n)
  show ?case
  proof (cases "n < 1000")
    case True
    then show ?thesis
      by (simp add: format_comma.simps [of n] no_comma_py_str_nat decimal_value_py_str_nat)
  next
    case False
    with 1 have IH: "decimal_value (filter (\<lambda>c. c \<noteq> COMMA) (format_comma (n div 1000))) = n div 1000"
      by simp
    from False have "filter (\<lambda>c. c \<noteq> COMMA) (format_comma n)
        = filter (\<lambda>c. c \<noteq> COMMA) (format_comma (n div 1000)) @ three_digits (n mod 1000)"
      by (simp add: format_comma.simps [of n] no_comma_three_digits)
    then show ?thesis
      by (simp only: decimal_value_three_digits IH thousands)
  qed
qed

lemma utf8_length_pos: "1 \<le> utf8_length c"
  by (simp add: utf8_length_def)

lemma length_le_utf8_size: "length s \<le> utf8_size s"
proof (induction s)
  case Nil
  show ?case by (simp add: utf8_size_def)
next
  case (Cons c s)
  with utf8_length_pos [of c] show ?case
    by (simp add: utf8_size_def)
qed

lemma utf8_size_eq_length: "utf8_size s = length s \<longleftrightarrow> ascii s"
proof (induction s)
  case Nil
  show ?case by (simp add: utf8_size_def ascii_def)
next
  case (Cons c s)
  have one: "utf8_length c = 1 \<longleftrightarrow> c < 128"
    by (simp add: utf8_length_def)
  from length_le_utf8_size [of s] utf8_length_pos [of c]
  have "utf8_length c + utf8_size s = Suc (length s)
          \<longleftrightarrow> utf8_length c = 1 \<and> utf8_size s = length s"
    by arith
  with Cons one show ?case
    by (simp add: utf8_size_def ascii_def)
qed

lemma no_cr_universal_newlines: "CR \<notin> set (universal_newlines s)"
  by (induction s rule: universal_newlines.induct) auto

lemma universal_newlines_id: "CR \<notin> set s \<Longrightarrow> universal_newlines s = s"
  by (induction s rule: universal_newlines.induct) auto

lemma universal_newlines_fixed: "universal_newlines s = s \<longleftrightarrow> CR \<notin> set s"
proof
  assume "universal_newlines s = s"
  with no_cr_universal_newlines [of s] show "CR \<notin> set s" by simp
next
  assume "CR \<notin> set s"
  then show "universal_newlines s = s" by (rule universal_newlines_id)
qed

lemma universal_newlines_empty: "universal_newlines s = [] \<longleftrightarrow> s = []"
  by (induction s rule: universal_newlines.induct) auto

lemma title_loop_by_position:
  "title_loop U prev left right =
     concat (map (\<lambda>i. if (if i = 0 then prev else db_cased U (right ! (i - 1)))
                      then lower_ucs4 U (left @ take i right) (right ! i) (drop (Suc i) right)
                      else db_title U (right ! i))
               [0..<length right])"
proof (induction right arbitrary: prev left)
  case Nil
  show ?case by simp
next
  case (Cons c cs)
  have upt: "[0..<length (c # cs)] = 0 # map Suc [0..<length cs]"
    by (simp add: upt_conv_Cons map_Suc_upt del: upt_Suc)
  show ?case
    unfolding upt title_loop.simps Cons.IH
    by (simp add: comp_def nth_Cons' if_distrib [of "db_cased U"] cong: if_cong)
qed

lemma py_title_by_position: "py_title U s = title_cased U s"
  unfolding py_title_def title_cased_def title_loop_by_position
  by (rule arg_cong [where f = concat], rule map_cong [OF refl]) auto

lemma lower_loop_by_position:
  "lower_loop U left right =
     concat (map (\<lambda>i. lower_ucs4 U (left @ take i right) (right ! i) (drop (Suc i) right))
               [0..<length right])"
proof (induction right arbitrary: left)
  case Nil
  show ?case by simp
next
  case (Cons c cs)
  have upt: "[0..<length (c # cs)] = 0 # map Suc [0..<length cs]"
    by (simp add: upt_conv_Cons map_Suc_upt del: upt_Suc)
  show ?case
    unfolding upt lower_loop.simps Cons.IH
    by (simp add: comp_def)
qed

lemma py_lower_by_position: "py_lower U s = lower_cased U s"
  by (simp add: py_lower_def lower_cased_def lower_loop_by_position)

lemma digits_py_str_nat: "list_all (\<lambda>c. 48 \<le> c \<and> c \<le> 57) (py_str_nat n)"
proof (induction n rule: py_str_nat.induct)
  case (1 n)
  show ?case
  proof (cases "n < 10")
    case True
    then show ?thesis by (simp add: py_str_nat.simps [of n])
  next
    case False
    have "n mod 10 < 10" by simp
    then have "48 + n mod 10 \<le> 57" by linarith
    with False 1 show ?thesis by (simp add: py_str_nat.simps [of n])
  qed
qed

lemma py_str_nat_nonempty: "py_str_nat n \<noteq> []"
  by (subst py_str_nat.simps) simp

lemma no_leading_zero: "0 < n \<Longrightarrow> hd (py_str_nat n) \<noteq> 48"
proof (induction n rule: py_str_nat.induct)
  case (1 n)
  show ?case
  proof (cases "n < 10")
    case True
    with 1 show ?thesis by (simp add: py_str_nat.simps [of n])
  next
    case False
    then have "0 < n div 10" by simp
    with False 1 have "hd (py_str_nat (n div 10)) \<noteq> 48" by simp
    with False show ?thesis
      by (simp add: py_str_nat.simps [of n] py_str_nat_nonempty)
  qed
qed

lemma cut_is_drop:
  assumes "regular_spacing U t"
  shows "(if SPACE \<in> set t \<and> py_isdigit U (takeWhile (\<lambda>c. c \<noteq> SPACE) t)
          then tl (dropWhile (\<lambda>c. c \<noteq> SPACE) t) else t)
         = drop_leading_number U t"
proof -
  from assms have only: "\<And>c. c \<in> set t \<Longrightarrow> is_space U c \<longleftrightarrow> c = SPACE"
    and start: "\<not> starts_with_space t"
    and number: "SPACE \<in> set t \<Longrightarrow> py_isdigit U (takeWhile (\<lambda>c. c \<noteq> SPACE) t)
       \<Longrightarrow> tl (dropWhile (\<lambda>c. c \<noteq> SPACE) t) \<noteq> []
           \<and> \<not> starts_with_space (tl (dropWhile (\<lambda>c. c \<noteq> SPACE) t))"
    by (auto simp: regular_spacing_def is_space_def list_all_iff)
  have lead: "dropWhile (is_space U) t = t"
  proof (cases t)
    case Nil
    then show ?thesis by simp
  next
    case (Cons c cs)
    with start only [of c] show ?thesis
      by (simp add: starts_with_space_def)
  qed
  have first: "takeWhile (\<lambda>c. \<not> is_space U c) t = takeWhile (\<lambda>c. c \<noteq> SPACE) t"
    by (rule takeWhile_cong [OF refl]) (simp add: only)
  have tail: "dropWhile (\<lambda>c. \<not> is_space U c) t = dropWhile (\<lambda>c. c \<noteq> SPACE) t"
    by (rule dropWhile_cong [OF refl]) (simp add: only)
  show ?thesis
  proof (cases "SPACE \<in> set t")
    case False
    then have empty: "dropWhile (\<lambda>c. c \<noteq> SPACE) t = []"
      by (auto simp: dropWhile_eq_Nil_conv)
    show ?thesis
      unfolding drop_leading_number_def lead tail empty using False by simp
  next
    case True
    define rest where "rest = tl (dropWhile (\<lambda>c. c \<noteq> SPACE) t)"
    from True have "dropWhile (\<lambda>c. c \<noteq> SPACE) t \<noteq> []"
      by (auto simp: dropWhile_eq_Nil_conv)
    moreover from this have "hd (dropWhile (\<lambda>c. c \<noteq> SPACE) t) = SPACE"
      using hd_dropWhile [of "\<lambda>c. c \<noteq> SPACE" t] by simp
    ultimately have cut: "dropWhile (\<lambda>c. c \<noteq> SPACE) t = SPACE # rest"
      unfolding rest_def by (cases "dropWhile (\<lambda>c. c \<noteq> SPACE) t") simp_all
    have sub: "set rest \<subseteq> set t"
    proof -
      have "set (SPACE # rest) \<subseteq> set t"
        unfolding cut [symmetric] by (rule set_dropWhileD [THEN subsetI])
      then show ?thesis by simp
    qed
    show ?thesis
    proof (cases "py_isdigit U (takeWhile (\<lambda>c. c \<noteq> SPACE) t)")
      case False
      with True show ?thesis
        by (simp add: drop_leading_number_def lead first)
    next
      case digits: True
      from number [OF True digits] have ne: "rest \<noteq> []" and ns: "\<not> starts_with_space rest"
        by (simp_all add: rest_def)
      then obtain r rs where r: "rest = r # rs" "r \<noteq> SPACE"
        by (cases rest) (simp_all add: starts_with_space_def)
      with sub only [of r] have "\<not> is_space U r"
        by simp
      with r have "dropWhile (is_space U) (SPACE # rest) = rest"
        by (simp add: is_space_def)
      with True digits ne show ?thesis
        by (simp add: drop_leading_number_def lead first tail cut rest_def [symmetric])
    qed
  qed
qed

lemma included_name:
  assumes "p \<in> set (List.map_filter included ds)"
  shows "\<exists>d \<in> set ds. included d = Some p \<and> fst d = fst p"
proof -
  from assms obtain d where d: "d \<in> set ds" "included d = Some p"
    by (auto simp: set_map_filter)
  from fst_included [OF d(2)] d show ?thesis
    by auto
qed

section \<open>The claims\<close>

text \<open>
  C1, amended.  When every \<open>README.md\<close> that is present can be read, the projects that
  \<open>main\<close> collects, and so the entries of the table of contents, are exactly the
  directories whose \<open>README.md\<close> has a non-empty text, one entry each, in strictly
  ascending order of the directory names; the table is the heading followed by one
  numbered line per such name, and it is part of the document that is written.  A
  directory whose \<open>README.md\<close> is empty is a directory with a \<open>README.md\<close> and is not
  listed.
\<close>

theorem toc_lists_nonempty_readmes:
  assumes "project_root e = Inr children"
    and "list_all readable children"
    and "distinct (map fst children)"
  shows "\<exists>ps. find_projects e = Inr ps
           \<and> map fst ps = sort (map fst (filter (\<lambda>d. nonempty_readme (snd d) \<noteq> None) children))
           \<and> sorted_wrt (<) (map fst ps)
           \<and> set (map fst ps) = {n. \<exists>nd. (n, nd) \<in> set children \<and> nonempty_readme nd \<noteq> None}
           \<and> generate_toc U ps
               = toc_heading @ concat (map (\<lambda>(i, n). toc_line U i n) (enumerate 1 (map fst ps)))
           \<and> (ps \<noteq> [] \<and> open_error e = None \<longrightarrow>
                (\<exists>pre post. written (main U e) = Some (pre @ generate_toc U ps @ post)))"
proof -
  define ps where "ps = List.map_filter included (sort_key fst (filter (\<lambda>d. is_dir (snd d)) children))"
  have found: "find_projects e = Inr ps"
    unfolding ps_def using assms(1,2) by (rule find_projects_readable)
  have names: "map fst ps = sort (map fst (filter (\<lambda>d. nonempty_readme (snd d) \<noteq> None) children))"
    unfolding ps_def by (rule included_names)
  from assms(3) have "distinct (map fst (filter (\<lambda>d. nonempty_readme (snd d) \<noteq> None) children))"
    by (rule distinct_map_filter)
  then have strict: "sorted_wrt (<) (map fst ps)"
    by (simp add: names strict_sorted_iff)
  have elems: "set (map fst ps) = {n. \<exists>nd. (n, nd) \<in> set children \<and> nonempty_readme nd \<noteq> None}"
    by (force simp: names)
  have "\<exists>pre post. written (main U e) = Some (pre @ generate_toc U ps @ post)"
    if "ps \<noteq> []" "open_error e = None"
  proof -
    have "written (main U e)
            = Some ((front_before_date @ today e @ front_after_date) @ generate_toc U ps
                @ (lit ''\<newline>---\<newline>\<newline>'' @ concat (map (\<lambda>(n, c). section_text n c) ps)))"
      using main_written [OF found that] by (simp add: append_sections_eq front_matter_def)
    then show ?thesis by blast
  qed
  then have doc': "ps \<noteq> [] \<and> open_error e = None \<longrightarrow>
      (\<exists>pre post. written (main U e) = Some (pre @ generate_toc U ps @ post))"
    by blast
  show ?thesis
    apply (rule exI [of _ ps])
    apply (intro conjI)
         apply (rule found)
        apply (rule names)
       apply (rule strict)
      apply (rule elems)
     apply (rule toc_of_names)
    apply (rule doc')
    done
qed

theorem toc_lists_nonempty_readmes_witness:
  "project_root (env_of [scanner_dir, empty_dir, notes_file, blank_dir, proxy_dir] None (lit ''2024-05-17''))
     = Inr [scanner_dir, empty_dir, notes_file, blank_dir, proxy_dir]
   \<and> list_all readable [scanner_dir, empty_dir, notes_file, blank_dir, proxy_dir]
   \<and> distinct (map fst [scanner_dir, empty_dir, notes_file, blank_dir, proxy_dir])
   \<and> (\<exists>ps. find_projects (env_of [scanner_dir, empty_dir, notes_file, blank_dir, proxy_dir] None (lit ''2024-05-17''))
              = Inr ps
            \<and> map fst ps = [lit ''01-proxy'', lit ''02-scanner''])"
proof -
  let ?ch = "[scanner_dir, empty_dir, notes_file, blank_dir, proxy_dir]"
  let ?e = "env_of ?ch None (lit ''2024-05-17'')"
  have h1: "project_root ?e = Inr ?ch"
    by (simp add: env_of_def)
  have h2: "list_all readable ?ch"
    by (simp add: sample_defs readable_def)
  have h3: "distinct (map fst ?ch)"
    by (simp add: sample_defs lit_def)
  have names: "sort (map fst (filter (\<lambda>d. nonempty_readme (snd d) \<noteq> None) ?ch))
                 = [lit ''01-proxy'', lit ''02-scanner'']"
    by (simp add: sample_defs nonempty_readme_def lit_def)
  from toc_lists_nonempty_readmes [where U = ascii_db, OF h1 h2 h3] obtain ps
    where found: "find_projects ?e = Inr ps"
      and sorted_names:
        "map fst ps = sort (map fst (filter (\<lambda>d. nonempty_readme (snd d) \<noteq> None) ?ch))"
    by blast
  from sorted_names names have "map fst ps = [lit ''01-proxy'', lit ''02-scanner'']"
    by (rule trans)
  with found have both:
    "find_projects ?e = Inr ps \<and> map fst ps = [lit ''01-proxy'', lit ''02-scanner'']"
    by (rule conjI)
  have ex: "\<exists>ps. find_projects ?e = Inr ps \<and> map fst ps = [lit ''01-proxy'', lit ''02-scanner'']"
    by (rule exI [of _ ps]) (rule both)
  show ?thesis
    by (intro conjI) (rule h1 h2 h3 ex)+
qed

theorem toc_lists_every_readme_counterexample:
  "find_projects (env_of [scanner_dir, blank_dir, proxy_dir] None (lit ''2024-05-17''))
     = Inr [(lit ''01-proxy'', lit ''# Proxy\<newline>Content''),
            (lit ''02-scanner'', lit ''# Scanner\<newline>Content'')]
   \<and> dirs_with_readme [scanner_dir, blank_dir, proxy_dir]
       = [lit ''01-proxy'', lit ''02-scanner'', lit ''04-blank'']"
  by (simp add: sample_defs find_projects_def get_project_dirs_def dirs_with_readme_def
      has_readme_def lit_def README_md_def)

text \<open>
  C2, amended.  When the run writes the document, the text that \<open>read_text()\<close> returned
  for an included project (a directory of the project root whose \<open>README.md\<close> has
  characters in it) occurs in the document unchanged, as a contiguous part, right
  after the comment that marks the project and followed by a newline.  That text is
  the stored text with every carriage return and line feed pair, and every other
  carriage return, replaced by one line feed; for a \<open>README.md\<close> without carriage
  returns it is the stored text itself.
\<close>

theorem readme_verbatim:
  assumes "project_root e = Inr children"
    and "(name, Dir entries) \<in> set children"
    and "entries README_md = Some (TextFile stored)"
    and "stored \<noteq> []"
    and "written (main U e) = Some doc"
  shows "read_readme (name, Dir entries) = Inr (Some (universal_newlines stored))
       \<and> sublist (universal_newlines stored) doc
       \<and> sublist (lit ''<!-- PROJECT: '' @ name @ lit '' -->\<newline>\<newline>''
                    @ universal_newlines stored @ lit ''\<newline>'') doc
       \<and> (CR \<notin> set stored \<longrightarrow> sublist stored doc)"
proof -
  define content where "content = universal_newlines stored"
  from assms(4) have ne: "content \<noteq> []"
    by (simp add: content_def universal_newlines_empty)
  from assms(5) obtain ps where found: "find_projects e = Inr ps"
    and doc: "doc = append_sections ps (front_matter (today e) (generate_toc U ps))"
    using main_written_cases by blast
  from find_projects_Inr [OF found] assms(1)
  have ps: "ps = List.map_filter included (sort_key fst (filter (\<lambda>d. is_dir (snd d)) children))"
    by simp
  have "included (name, Dir entries) = Some (name, content)"
    using assms(3) ne by (simp add: included_def nonempty_readme_def content_def)
  moreover have "(name, Dir entries) \<in> set (sort_key fst (filter (\<lambda>d. is_dir (snd d)) children))"
    using assms(2) by simp
  ultimately have mem: "(name, content) \<in> set ps"
    unfolding ps by (force simp: map_filter_def)
  have "sublist (section_text name content) (concat (map (\<lambda>(n, c). section_text n c) ps))"
    using sublist_concat_map [OF mem, of "\<lambda>(n, c). section_text n c"] by simp
  then have sec: "sublist (section_text name content) doc"
    unfolding doc append_sections_eq by (simp add: sublist_append)
  have inner: "sublist (lit ''<!-- PROJECT: '' @ name @ lit '' -->\<newline>\<newline>'' @ content @ lit ''\<newline>'')
                 (section_text name content)"
    unfolding section_text_def sublist_def
    by (rule exI [of _ "lit ''\<newline>\<newline>---\<newline>\<newline>''"], rule exI [of _ "[]"]) (simp add: lit_def)
  have inner2: "sublist content (lit ''<!-- PROJECT: '' @ name @ lit '' -->\<newline>\<newline>'' @ content @ lit ''\<newline>'')"
    unfolding sublist_def
    by (rule exI [of _ "lit ''<!-- PROJECT: '' @ name @ lit '' -->\<newline>\<newline>''"], rule exI [of _ "lit ''\<newline>''"]) simp
  from inner sec have s1: "sublist (lit ''<!-- PROJECT: '' @ name @ lit '' -->\<newline>\<newline>'' @ content @ lit ''\<newline>'') doc"
    by (rule sublist_order.order_trans)
  from inner2 s1 have s2: "sublist content doc"
    by (rule sublist_order.order_trans)
  from s2 have s3: "CR \<notin> set stored \<longrightarrow> sublist stored doc"
    by (auto simp: content_def universal_newlines_id)
  from assms(3) have "read_readme (name, Dir entries) = Inr (Some content)"
    by (simp add: content_def)
  with s1 s2 s3 show ?thesis
    unfolding content_def by simp
qed

theorem readme_verbatim_witness:
  "written (main ascii_db (env_of [crlf_dir] None (lit ''2024-05-17''))) = Some crlf_doc
   \<and> universal_newlines crlf_text = lit ''one\<newline>two''
   \<and> sublist (lit ''one\<newline>two'') crlf_doc
   \<and> sublist (lit ''<!-- PROJECT: 06-notes -->\<newline>\<newline>one\<newline>two\<newline>'') crlf_doc"
proof -
  let ?e = "env_of [crlf_dir] None (lit ''2024-05-17'')"
  let ?entries = "[README_md \<mapsto> TextFile crlf_text]"
  have h1: "project_root ?e = Inr [crlf_dir]"
    by (simp add: env_of_def)
  have h2: "(lit ''06-notes'', Dir ?entries) \<in> set [crlf_dir]"
    by (simp add: sample_defs)
  have h3: "?entries README_md = Some (TextFile crlf_text)"
    by simp
  have h4: "crlf_text \<noteq> []"
    by (simp add: crlf_text_def)
  have h5: "written (main ascii_db ?e) = Some crlf_doc"
    by (simp add: crlf_doc_def sample_defs model_defs)
  have u: "universal_newlines crlf_text = lit ''one\<newline>two''"
    by (simp add: crlf_text_def lit_def)
  have eq: "lit ''<!-- PROJECT: '' @ lit ''06-notes'' @ lit '' -->\<newline>\<newline>''
              @ lit ''one\<newline>two'' @ lit ''\<newline>''
            = lit ''<!-- PROJECT: 06-notes -->\<newline>\<newline>one\<newline>two\<newline>''"
    by (simp add: lit_def)
  from readme_verbatim [OF h1 h2 h3 h4 h5]
  have "sublist (lit ''one\<newline>two'') crlf_doc"
    and "sublist (lit ''<!-- PROJECT: 06-notes -->\<newline>\<newline>one\<newline>two\<newline>'') crlf_doc"
    unfolding u eq by simp_all
  with h5 u show ?thesis
    by (intro conjI)
qed

theorem readme_raw_counterexample:
  "written (main ascii_db (env_of [crlf_dir] None (lit ''2024-05-17''))) = Some crlf_doc
   \<and> read_readme crlf_dir = Inr (Some (lit ''one\<newline>two''))
   \<and> \<not> sublist crlf_text crlf_doc"
proof -
  have w: "written (main ascii_db (env_of [crlf_dir] None (lit ''2024-05-17''))) = Some crlf_doc"
    by (simp add: crlf_doc_def sample_defs model_defs)
  have r: "read_readme crlf_dir = Inr (Some (lit ''one\<newline>two''))"
    by (simp add: sample_defs lit_def)
  have "CR \<in> set crlf_text"
    by (simp add: crlf_text_def)
  moreover have "CR \<notin> set crlf_doc"
    by (simp add: crlf_doc_def lit_def)
  ultimately have "\<not> sublist crlf_text crlf_doc"
    using set_mono_sublist [of crlf_text crlf_doc] by blast
  with w r show ?thesis by (intro conjI)
qed

text \<open>
  C3, amended.  Let \<open>t\<close> be the directory name with every hyphen replaced by a space
  and then title-cased as Python's \<open>title()\<close> does it: every character that directly
  follows a cased character is lowercased and every other character is titlecased,
  so that a letter after a digit or an underscore is a capital too.  The title is \<open>t\<close>
  without its first word when that word is purely numeric and another word follows,
  and \<open>t\<close> otherwise.  This is stated for the names whose \<open>t\<close> has no whitespace but
  the space character, does not begin with a space, and does not have a number at its
  start that is followed by a space and then by nothing or by another space.
\<close>

theorem title_from_directory_name:
  assumes "regular_spacing U (py_title U (py_replace HYPHEN SPACE name))"
  shows "toc_title U name = drop_leading_number U (py_title U (py_replace HYPHEN SPACE name))
       \<and> py_title U (py_replace HYPHEN SPACE name)
           = title_cased U (py_replace HYPHEN SPACE name)"
proof -
  have "toc_title U name =
      (if SPACE \<in> set (py_title U (py_replace HYPHEN SPACE name))
          \<and> py_isdigit U (takeWhile (\<lambda>c. c \<noteq> SPACE) (py_title U (py_replace HYPHEN SPACE name)))
       then tl (dropWhile (\<lambda>c. c \<noteq> SPACE) (py_title U (py_replace HYPHEN SPACE name)))
       else py_title U (py_replace HYPHEN SPACE name))"
    by (auto simp: toc_title_def py_split1_def Let_def)
  with cut_is_drop [OF assms] show ?thesis
    by (simp add: py_title_by_position)
qed

theorem title_from_directory_name_witness:
  "regular_spacing ascii_db (py_title ascii_db (py_replace HYPHEN SPACE (lit ''01-proxy'')))
   \<and> toc_title ascii_db (lit ''01-proxy'') = lit ''Proxy''"
proof -
  have h: "regular_spacing ascii_db (py_title ascii_db (py_replace HYPHEN SPACE (lit ''01-proxy'')))"
    by (simp add: regular_spacing_def starts_with_space_def model_defs)
  have v: "drop_leading_number ascii_db (py_title ascii_db (py_replace HYPHEN SPACE (lit ''01-proxy'')))
             = lit ''Proxy''"
    by (simp add: drop_leading_number_def is_space_def model_defs)
  from title_from_directory_name [OF h, THEN conjunct1] v
  have "toc_title ascii_db (lit ''01-proxy'') = lit ''Proxy''"
    by (rule trans)
  with h show ?thesis by (rule conjI)
qed

theorem title_by_words_counterexample:
  "toc_title ascii_db (lit ''01-api_gateway'') = lit ''Api_Gateway''
   \<and> spec_title ascii_db (lit ''01-api_gateway'') = lit ''Api_gateway''"
  by (simp add: model_defs spec_title_def drop_leading_number_def is_space_def)

text \<open>
  C4.  The table of contents is the heading followed by one line per project, in the
  order of the projects; the lines carry the numbers \<open>1, 2, ..., N\<close>, and every line
  reads \<open>{index}. [{title}](#{anchor})\<close> and ends with a newline.  The index is printed
  in decimal: a non-empty string of the digits \<open>0\<close> to \<open>9\<close> that denotes the number and
  does not begin with \<open>0\<close>, so that different numbers print differently.
\<close>

theorem toc_numbered_from_one:
  "generate_toc U projects
     = toc_heading
       @ concat (map (\<lambda>(i, name, content).
                        py_str_nat i @ lit ''. ['' @ toc_title U name @ lit ''](#''
                          @ toc_anchor U name @ lit '')\<newline>'')
                   (enumerate 1 projects))
   \<and> map fst (enumerate 1 projects) = [1..<Suc (length projects)]
   \<and> inj py_str_nat
   \<and> (\<forall>i. py_str_nat i \<noteq> []
          \<and> list_all (\<lambda>c. 48 \<le> c \<and> c \<le> 57) (py_str_nat i)
          \<and> decimal_value (py_str_nat i) = i
          \<and> (0 < i \<longrightarrow> hd (py_str_nat i) \<noteq> 48))"
proof -
  have line_eq: "map (\<lambda>(k, p). toc_line U k (fst p)) xs
          = map (\<lambda>(i, name, content).
               py_str_nat i @ lit ''. ['' @ toc_title U name @ lit ''](#'' @ toc_anchor U name
                 @ lit '')\<newline>'') xs" for xs
    by (rule map_cong [OF refl]) (auto simp: toc_line_def)
  have toc: "generate_toc U projects
     = toc_heading
       @ concat (map (\<lambda>(i, name, content).
                        py_str_nat i @ lit ''. ['' @ toc_title U name @ lit ''](#''
                          @ toc_anchor U name @ lit '')\<newline>'')
                   (enumerate 1 projects))"
    unfolding generate_toc_def toc_loop_eq line_eq by simp
  have digits: "py_str_nat i \<noteq> []
          \<and> list_all (\<lambda>c. 48 \<le> c \<and> c \<le> 57) (py_str_nat i)
          \<and> decimal_value (py_str_nat i) = i
          \<and> (0 < i \<longrightarrow> hd (py_str_nat i) \<noteq> 48)" for i
    by (simp add: py_str_nat_nonempty digits_py_str_nat decimal_value_py_str_nat no_leading_zero)
  from toc digits show ?thesis
    by (simp add: map_fst_enumerate inj_py_str_nat)
qed

theorem toc_numbered_from_one_witness:
  "generate_toc ascii_db ten_projects = ten_toc"
proof -
  have "toc_heading
       @ concat (map (\<lambda>(i, name, content).
                        py_str_nat i @ lit ''. ['' @ toc_title ascii_db name @ lit ''](#''
                          @ toc_anchor ascii_db name @ lit '')\<newline>'')
                   (enumerate 1 ten_projects))
        = ten_toc"
    by (simp add: ten_projects_def ten_toc_def model_defs)
  with toc_numbered_from_one [where U = ascii_db and projects = ten_projects, THEN conjunct1]
  show ?thesis by (rule trans)
qed

text \<open>
  C5.  Every line of the table of contents links to the anchor made from the
  directory name itself, not from the title: the name lowercased as Python's
  \<open>lower()\<close> does it, character by character, and then every space replaced by a
  hyphen.  No anchor holds a space.
\<close>

theorem anchor_from_directory_name:
  "generate_toc U projects
     = toc_heading
       @ concat (map (\<lambda>(i, name, content).
                        py_str_nat i @ lit ''. ['' @ toc_title U name @ lit ''](#''
                          @ py_replace SPACE HYPHEN (py_lower U name) @ lit '')\<newline>'')
                   (enumerate 1 projects))
   \<and> toc_anchor U name = map (\<lambda>c. if c = SPACE then HYPHEN else c) (lower_cased U name)
   \<and> SPACE \<notin> set (toc_anchor U name)"
proof -
  have line_eq: "map (\<lambda>(k, p). toc_line U k (fst p)) xs
          = map (\<lambda>(i, name, content).
                   py_str_nat i @ lit ''. ['' @ toc_title U name @ lit ''](#''
                     @ py_replace SPACE HYPHEN (py_lower U name) @ lit '')\<newline>'') xs" for xs
    by (rule map_cong [OF refl]) (auto simp: toc_line_def toc_anchor_def)
  have toc: "generate_toc U projects
     = toc_heading
       @ concat (map (\<lambda>(i, name, content).
                        py_str_nat i @ lit ''. ['' @ toc_title U name @ lit ''](#''
                          @ py_replace SPACE HYPHEN (py_lower U name) @ lit '')\<newline>'')
                   (enumerate 1 projects))"
    unfolding generate_toc_def toc_loop_eq line_eq by simp
  have anchor: "toc_anchor U name = map (\<lambda>c. if c = SPACE then HYPHEN else c) (lower_cased U name)"
    by (simp add: toc_anchor_def py_replace_def py_lower_by_position)
  then have "SPACE \<notin> set (toc_anchor U name)"
    by auto
  with toc anchor show ?thesis
    by (intro conjI)
qed

theorem anchor_from_directory_name_witness:
  "generate_toc ascii_db [(lit ''01-Proxy Server'', lit ''text'')]
     = lit ''## Table of Contents\<newline>\<newline>1. [Proxy Server](#01-proxy-server)\<newline>''"
proof -
  have "toc_heading
             @ concat (map (\<lambda>(i, name, content).
                              py_str_nat i @ lit ''. ['' @ toc_title ascii_db name @ lit ''](#''
                                @ py_replace SPACE HYPHEN (py_lower ascii_db name) @ lit '')\<newline>'')
                         (enumerate 1 [(lit ''01-Proxy Server'', lit ''text'')]))
        = lit ''## Table of Contents\<newline>\<newline>1. [Proxy Server](#01-proxy-server)\<newline>''"
    by (simp add: model_defs)
  with anchor_from_directory_name
         [where U = ascii_db and projects = "[(lit ''01-Proxy Server'', lit ''text'')]",
          THEN conjunct1]
  show ?thesis by (rule trans)
qed

text \<open>
  C6.  When the project root can be listed and no child has a \<open>README.md\<close> with text
  (there is none, or it is empty; in particular when there is no subdirectory at all),
  the run ends normally, prints the one line \<open>No project README files found!\<close>,
  writes nothing and leaves the output file as it was.
\<close>

theorem no_projects_no_write:
  assumes "project_root e = Inr children"
    and "list_all no_text children"
  shows "main U e =
           \<lparr>status = Inr (), console = [lit ''No project README files found!''],
            written = None, output_after = output_file e\<rparr>"
proof -
  have "readable d \<and> included d = None" if "no_text d" for d
  proof (cases d)
    case (Pair n nd)
    with that show ?thesis
      by (cases nd)
        (auto simp: no_text_def readable_def included_def nonempty_readme_def
          split: option.splits entry.splits)
  qed
  with assms(2) have r: "list_all readable children" and n: "\<forall>d \<in> set children. included d = None"
    by (simp_all add: list_all_iff)
  from n have "List.map_filter included (sort_key fst (filter (\<lambda>d. is_dir (snd d)) children)) = []"
    by (simp add: map_filter_def filter_empty_conv)
  with find_projects_readable [OF assms(1) r] have "find_projects e = Inr []"
    by simp
  then show ?thesis
    by (simp add: main_def)
qed

theorem no_projects_no_write_witness:
  "list_all no_text [notes_file, empty_dir, blank_dir]
   \<and> main ascii_db (env_of [notes_file, empty_dir, blank_dir] (Some (lit ''old text'')) (lit ''2024-05-17''))
       = \<lparr>status = Inr (), console = [lit ''No project README files found!''],
          written = None, output_after = Some (lit ''old text'')\<rparr>
   \<and> main ascii_db (env_of [] None (lit ''2024-05-17''))
       = \<lparr>status = Inr (), console = [lit ''No project README files found!''],
          written = None, output_after = None\<rparr>"
proof -
  have h: "list_all no_text [notes_file, empty_dir, blank_dir]"
    by (simp add: no_text_def sample_defs)
  have "project_root (env_of cs old d) = Inr cs" and "output_file (env_of cs old d) = old" for cs old d
    by (simp_all add: env_of_def)
  with no_projects_no_write [where U = ascii_db and e = "env_of [notes_file, empty_dir, blank_dir] (Some (lit ''old text'')) (lit ''2024-05-17'')", OF _ h]
    no_projects_no_write [where U = ascii_db and e = "env_of [] None (lit ''2024-05-17'')"
      and children = "[]"] h
  show ?thesis by simp
qed

text \<open>
  C7.  \<open>read_readme\<close> returns the text of \<open>README.md\<close> exactly when the directory holds
  such a file, the text being the stored characters as text mode reads them (the
  stored characters themselves when no carriage return is among them); it returns
  \<open>None\<close> (and raises nothing) exactly when the directory holds no \<open>README.md\<close>, and
  raises exactly when the entry cannot be read.  So \<open>None\<close> is never the result of a
  successful read, not even of an empty file.
\<close>

theorem read_readme_result:
  "(read_readme (name, Dir entries) = Inr (Some text)
      \<longleftrightarrow> (\<exists>stored. entries README_md = Some (TextFile stored) \<and> universal_newlines stored = text))
   \<and> (read_readme (name, Dir entries) = Inr None \<longleftrightarrow> entries README_md = None)
   \<and> (read_readme (name, Dir entries) = Inl err \<longleftrightarrow> entries README_md = Some (Unreadable err))
   \<and> (universal_newlines stored = stored \<longleftrightarrow> CR \<notin> set stored)"
  by (auto simp: universal_newlines_fixed split: option.splits entry.splits)

text \<open>
  C8.  Two runs on the same directories (the same children of the project root, listed
  by the operating system in any order, with distinct names) and the same behaviour
  of the output path end the same way, and either both write or neither does; the two
  documents are the same text around the date (\<open>front_before_date\<close>, the date, then
  the same rest), so on the same date they are the same document and the same console
  lines.  The earlier content of the output file plays no part.
\<close>

theorem rerun_same_but_date:
  assumes "project_root e1 = Inr l1" and "project_root e2 = Inr l2"
    and "mset l1 = mset l2" and "distinct (map fst l1)"
    and "open_error e1 = open_error e2"
  shows "status (main U e1) = status (main U e2)
       \<and> (\<exists>wr rest.
             written (main U e1) = (if wr then Some (front_before_date @ today e1 @ rest) else None)
           \<and> written (main U e2) = (if wr then Some (front_before_date @ today e2 @ rest) else None))
       \<and> (today e1 = today e2 \<longrightarrow>
             written (main U e1) = written (main U e2) \<and> console (main U e1) = console (main U e2))"
proof -
  from get_project_dirs_perm [OF assms(1-4)] have fp: "find_projects e1 = find_projects e2"
    by (simp add: find_projects_def)
  show ?thesis
  proof (cases "find_projects e2")
    case (Inl err)
    with fp assms(5) have "status (main U e1) = status (main U e2)"
      "written (main U e1) = None" "written (main U e2) = None" "console (main U e1) = console (main U e2)"
      by (simp_all add: main_by_projects raised_def)
    then show ?thesis
      by (auto intro!: exI [of _ False])
  next
    case (Inr ps)
    show ?thesis
    proof (cases "ps \<noteq> [] \<and> open_error e2 = None")
      case True
      define rest where "rest = front_after_date @ generate_toc U ps @ lit ''\<newline>---\<newline>\<newline>''
        @ concat (map (\<lambda>(n, c). section_text n c) ps)"
      have w: "written (main U e) = Some (front_before_date @ today e @ rest)"
        and s: "status (main U e) = Inr ()"
        and c: "console (main U e) = [lit ''Portfolio generated: '' @ OUTPUT_FILE,
                  lit ''Total projects: '' @ py_str_nat (length ps),
                  lit ''Total size: '' @ format_comma (length (front_before_date @ today e @ rest))
                    @ lit '' characters'']"
        if "find_projects e = Inr ps" "open_error e = None" for e
        using that True
        by (simp_all add: main_by_projects append_sections_eq front_matter_def rest_def)
      from Inr fp True assms(5) have e1: "find_projects e1 = Inr ps" "open_error e1 = None"
        and e2: "find_projects e2 = Inr ps" "open_error e2 = None"
        by simp_all
      have "\<exists>wr rest.
             written (main U e1) = (if wr then Some (front_before_date @ today e1 @ rest) else None)
           \<and> written (main U e2) = (if wr then Some (front_before_date @ today e2 @ rest) else None)"
        by (rule exI [of _ True], rule exI [of _ rest]) (simp add: w [OF e1] w [OF e2])
      then show ?thesis
        by (simp add: w [OF e1] w [OF e2] s [OF e1] s [OF e2] c [OF e1] c [OF e2])
    next
      case False
      with Inr fp assms(5) have "status (main U e1) = status (main U e2)"
        "written (main U e1) = None" "written (main U e2) = None" "console (main U e1) = console (main U e2)"
        by (auto simp: main_by_projects raised_def split: option.splits)
      then show ?thesis
        by (auto intro!: exI [of _ False])
    qed
  qed
qed

theorem rerun_same_but_date_witness:
  "mset [scanner_dir, empty_dir, notes_file, proxy_dir] = mset [proxy_dir, notes_file, scanner_dir, empty_dir]
   \<and> distinct (map fst [scanner_dir, empty_dir, notes_file, proxy_dir])
   \<and> status (main ascii_db (env_of [scanner_dir, empty_dir, notes_file, proxy_dir] None (lit ''2024-05-17'')))
       = status (main ascii_db (env_of [proxy_dir, notes_file, scanner_dir, empty_dir] (Some scenario_doc) (lit ''2024-05-18'')))
   \<and> (\<exists>wr rest.
         written (main ascii_db (env_of [scanner_dir, empty_dir, notes_file, proxy_dir] None (lit ''2024-05-17'')))
           = (if wr then Some (front_before_date @ lit ''2024-05-17'' @ rest) else None)
       \<and> written (main ascii_db (env_of [proxy_dir, notes_file, scanner_dir, empty_dir] (Some scenario_doc) (lit ''2024-05-18'')))
           = (if wr then Some (front_before_date @ lit ''2024-05-18'' @ rest) else None))"
proof -
  let ?l1 = "[scanner_dir, empty_dir, notes_file, proxy_dir]"
  let ?l2 = "[proxy_dir, notes_file, scanner_dir, empty_dir]"
  let ?e1 = "env_of ?l1 None (lit ''2024-05-17'')"
  let ?e2 = "env_of ?l2 (Some scenario_doc) (lit ''2024-05-18'')"
  have h1: "project_root ?e1 = Inr ?l1" and h2: "project_root ?e2 = Inr ?l2"
    and h5: "open_error ?e1 = open_error ?e2"
    and d1: "today ?e1 = lit ''2024-05-17''" and d2: "today ?e2 = lit ''2024-05-18''"
    by (simp_all add: env_of_def)
  have h3: "mset ?l1 = mset ?l2"
    by (simp add: add_mset_commute)
  have h4: "distinct (map fst ?l1)"
    by (simp add: sample_defs lit_def)
  note t = rerun_same_but_date [where U = ascii_db, OF h1 h2 h3 h4 h5, unfolded d1 d2]
  show ?thesis
    by (intro conjI) (rule h3 h4 t [THEN conjunct1] t [THEN conjunct2, THEN conjunct1])+
qed

text \<open>
  C9, amended.  After the file is written the console holds three lines: the output
  path, \<open>Total projects:\<close> with the number of included projects in decimal, and
  \<open>Total size:\<close> with the number of characters (code points) of the document, in
  decimal with a comma between groups of three digits, followed by \<open>characters\<close>.
  That number is at most the size of the document in UTF-8 bytes, and equal to it
  exactly when the document is ASCII.
\<close>

theorem summary_reports_characters:
  assumes "written (main U e) = Some doc"
  shows "\<exists>ps. find_projects e = Inr ps
           \<and> console (main U e)
               = [lit ''Portfolio generated: docs/PORTFOLIO.md'',
                  lit ''Total projects: '' @ py_str_nat (length ps),
                  lit ''Total size: '' @ format_comma (length doc) @ lit '' characters'']
           \<and> decimal_value (py_str_nat (length ps)) = length ps
           \<and> decimal_value (filter (\<lambda>c. c \<noteq> COMMA) (format_comma (length doc))) = length doc
           \<and> length doc \<le> utf8_size doc
           \<and> (utf8_size doc = length doc \<longleftrightarrow> ascii doc)"
proof -
  from main_written_cases [OF assms] obtain ps where found: "find_projects e = Inr ps"
    and ne: "ps \<noteq> []" and op: "open_error e = None"
    and doc: "doc = append_sections ps (front_matter (today e) (generate_toc U ps))"
    by blast
  have "lit ''Portfolio generated: '' @ OUTPUT_FILE = lit ''Portfolio generated: docs/PORTFOLIO.md''"
    by (simp add: lit_def OUTPUT_FILE_def)
  with found ne op doc
  have "console (main U e)
               = [lit ''Portfolio generated: docs/PORTFOLIO.md'',
                  lit ''Total projects: '' @ py_str_nat (length ps),
                  lit ''Total size: '' @ format_comma (length doc) @ lit '' characters'']"
    by (simp add: main_by_projects)
  with found show ?thesis
    by (intro exI [of _ ps] conjI)
      (simp_all add: decimal_value_py_str_nat decimal_value_format_comma length_le_utf8_size
        utf8_size_eq_length)
qed

theorem summary_reports_characters_witness:
  "written (main ascii_db (env_of scenario_children None (lit ''2024-05-17''))) = Some scenario_doc
   \<and> console (main ascii_db (env_of scenario_children None (lit ''2024-05-17'')))
       = [lit ''Portfolio generated: docs/PORTFOLIO.md'', lit ''Total projects: 2'',
          lit ''Total size: 458 characters'']
   \<and> utf8_size scenario_doc = length scenario_doc"
proof -
  let ?e = "env_of scenario_children None (lit ''2024-05-17'')"
  have h: "written (main ascii_db ?e) = Some scenario_doc"
    by (simp add: scenario_children_def scenario_doc_def sample_defs model_defs)
  have a: "ascii scenario_doc"
    by (simp add: scenario_doc_def ascii_def lit_def)
  have len: "length scenario_doc = 458"
    by (simp add: scenario_doc_def lit_def)
  have f: "find_projects ?e = Inr [(lit ''01-proxy'', lit ''# Proxy\<newline>Content''),
              (lit ''02-scanner'', lit ''# Scanner\<newline>Content'')]"
    by (simp add: scenario_children_def sample_defs find_projects_def get_project_dirs_def lit_def
        README_md_def)
  from summary_reports_characters [where U = ascii_db, OF h] obtain ps where "find_projects ?e = Inr ps"
    and c: "console (main ascii_db ?e)
               = [lit ''Portfolio generated: docs/PORTFOLIO.md'',
                  lit ''Total projects: '' @ py_str_nat (length ps),
                  lit ''Total size: '' @ format_comma (length scenario_doc) @ lit '' characters'']"
    and u: "utf8_size scenario_doc = length scenario_doc \<longleftrightarrow> ascii scenario_doc"
    by blast
  with f have "length ps = 2"
    by simp
  with c len have "console (main ascii_db ?e)
       = [lit ''Portfolio generated: docs/PORTFOLIO.md'', lit ''Total projects: 2'',
          lit ''Total size: 458 characters'']"
    by (simp add: py_str_nat.simps format_comma.simps lit_def)
  with h u a show ?thesis
    by simp
qed

theorem summary_reports_bytes_counterexample:
  "console (main ascii_db (env_of [cafe_dir] None (lit ''2024-05-17''))) ! 2
     = lit ''Total size: 363 characters''
   \<and> map_option utf8_size (written (main ascii_db (env_of [cafe_dir] None (lit ''2024-05-17'')))) = Some 364"
  by (simp add: sample_defs model_defs utf8_size_def utf8_length_def)

text \<open>
  C10.  A directory whose \<open>README.md\<close> exists and is empty is read as the empty string,
  which \<open>if content\<close> rejects.  The run is the same as the run on the file system in
  which that \<open>README.md\<close> is absent; the directory's name (names being distinct) is not
  among the collected projects, and the table of contents and the sections of the
  document are made from the collected projects only, so the directory has no entry
  and no section.
\<close>

theorem empty_readme_as_absent:
  assumes "project_root e = Inr (before @ (name, Dir entries) # after)"
    and "entries README_md = Some (TextFile [])"
    and "distinct (map fst (before @ (name, Dir entries) # after))"
  shows "main U (e\<lparr>project_root := Inr (before @ (name, Dir (entries(README_md := None))) # after)\<rparr>)
           = main U e
       \<and> read_readme (name, Dir entries) = Inr (Some [])
       \<and> (\<forall>ps. find_projects e = Inr ps \<longrightarrow>
             name \<notin> fst ` set ps
           \<and> generate_toc U ps
               = toc_heading @ concat (map (\<lambda>(i, n). toc_line U i n) (enumerate 1 (map fst ps)))
           \<and> (\<forall>doc. written (main U e) = Some doc \<longrightarrow>
                 doc = front_matter (today e) (generate_toc U ps)
                       @ concat (map (\<lambda>(n, c). section_text n c) ps)))"
proof -
  let ?children = "before @ (name, Dir entries) # after"
  let ?e' = "e\<lparr>project_root := Inr (before @ (name, Dir (entries(README_md := None))) # after)\<rparr>"
  have "alike (name, Dir (entries(README_md := None))) (name, Dir entries)"
    using assms(2) by (simp add: alike_def outcome_def included_def nonempty_readme_def)
  then have "list_all2 alike (before @ (name, Dir (entries(README_md := None))) # after) ?children"
    by (simp add: list_all2_appendI list_all2_refl alike_refl)
  then have "find_projects ?e' = find_projects e"
    using assms(1) by (intro find_projects_alike) simp_all
  then have same: "main U ?e' = main U e"
    by (intro main_cong) simp_all
  have none: "included (name, Dir entries) = None"
    using assms(2) by (simp add: included_def nonempty_readme_def)
  have absent: "name \<notin> fst ` set ps" if found: "find_projects e = Inr ps" for ps
  proof
    assume "name \<in> fst ` set ps"
    then obtain p where p: "p \<in> set ps" "fst p = name"
      by auto
    from find_projects_Inr [OF found] assms(1)
    have "ps = List.map_filter included (sort_key fst (filter (\<lambda>d. is_dir (snd d)) ?children))"
      by simp
    with p(1) included_name obtain d
      where d: "d \<in> set (sort_key fst (filter (\<lambda>d. is_dir (snd d)) ?children))"
        "included d = Some p" "fst d = fst p"
      by blast
    from d(1) have "d \<in> set ?children"
      by auto
    moreover have "(name, Dir entries) \<in> set ?children"
      by simp
    moreover from d(3) p(2) have "fst d = fst (name, Dir entries)"
      by simp
    ultimately have "d = (name, Dir entries)"
      using assms(3) by (meson distinct_map inj_onD)
    with none d(2) show False
      by simp
  qed
  have body: "doc = front_matter (today e) (generate_toc U ps)
                       @ concat (map (\<lambda>(n, c). section_text n c) ps)"
    if "find_projects e = Inr ps" "written (main U e) = Some doc" for ps doc
    using main_written_cases [OF that(2)] that(1) by (auto simp: append_sections_eq)
  from assms(2) have "read_readme (name, Dir entries) = Inr (Some [])"
    by simp
  with same absent body toc_of_names show ?thesis
    by blast
qed

theorem empty_readme_as_absent_witness:
  "main ascii_db
     ((env_of ([scanner_dir] @ (lit ''04-blank'', Dir [README_md \<mapsto> TextFile []]) # [proxy_dir])
         None (lit ''2024-05-17''))
       \<lparr>project_root :=
          Inr ([scanner_dir]
               @ (lit ''04-blank'', Dir ([README_md \<mapsto> TextFile []](README_md := None)))
               # [proxy_dir])\<rparr>)
     = main ascii_db
         (env_of ([scanner_dir] @ (lit ''04-blank'', Dir [README_md \<mapsto> TextFile []]) # [proxy_dir])
            None (lit ''2024-05-17''))
   \<and> find_projects
         (env_of ([scanner_dir] @ (lit ''04-blank'', Dir [README_md \<mapsto> TextFile []]) # [proxy_dir])
            None (lit ''2024-05-17''))
       = Inr [(lit ''01-proxy'', lit ''# Proxy\<newline>Content''),
              (lit ''02-scanner'', lit ''# Scanner\<newline>Content'')]
   \<and> lit ''04-blank''
        \<notin> fst ` set [(lit ''01-proxy'', lit ''# Proxy\<newline>Content''),
                      (lit ''02-scanner'', lit ''# Scanner\<newline>Content'')]
   \<and> written (main ascii_db
         (env_of ([scanner_dir] @ (lit ''04-blank'', Dir [README_md \<mapsto> TextFile []]) # [proxy_dir])
            None (lit ''2024-05-17'')))
       = Some scenario_doc"
proof -
  let ?blank = "(lit ''04-blank'', Dir [README_md \<mapsto> TextFile []])"
  let ?e = "env_of ([scanner_dir] @ ?blank # [proxy_dir]) None (lit ''2024-05-17'')"
  let ?ps = "[(lit ''01-proxy'', lit ''# Proxy\<newline>Content''),
              (lit ''02-scanner'', lit ''# Scanner\<newline>Content'')]"
  have h1: "project_root ?e = Inr ([scanner_dir] @ ?blank # [proxy_dir])"
    by (simp add: env_of_def)
  have h2: "[README_md \<mapsto> TextFile []] README_md = Some (TextFile [])"
    by simp
  have h3: "distinct (map fst ([scanner_dir] @ ?blank # [proxy_dir]))"
    by (simp add: sample_defs lit_def)
  have f: "find_projects ?e = Inr ?ps"
    by (simp add: sample_defs find_projects_def get_project_dirs_def lit_def README_md_def)
  have w: "written (main ascii_db ?e) = Some scenario_doc"
    by (simp add: scenario_doc_def sample_defs model_defs)
  note t = empty_readme_as_absent [where U = ascii_db, OF h1 h2 h3]
  from t [THEN conjunct2, THEN conjunct2, rule_format, OF f, THEN conjunct1]
  have a: "lit ''04-blank'' \<notin> fst ` set ?ps" .
  show ?thesis
    by (rule conjI [OF t [THEN conjunct1] conjI [OF f conjI [OF a w]]])
qed

end
